theory Spec2Isabelle
  imports Main "HOL-Library.Char_ord" "HOL-Library.List_Lexorder"
begin

section \<open>Strings\<close>

text \<open>
  A Python \<open>str\<close> is modelled as a \<open>string\<close>: one \<open>char\<close> per code point, read as the
  code points U+0000 to U+00FF, so that \<open>length\<close>, \<open>take\<close> and \<open>drop\<close> count what Python's
  \<open>len\<close> and slices count.
\<close>

definition is_alnum :: "char \<Rightarrow> bool" where
  \<comment> \<open>the regular-expression class \<open>[a-zA-Z0-9]\<close>\<close>
  "is_alnum c =
     (let n = (of_char c :: nat)
      in (97 \<le> n \<and> n \<le> 122) \<or> (65 \<le> n \<and> n \<le> 90) \<or> (48 \<le> n \<and> n \<le> 57))"

definition is_actor_char :: "char \<Rightarrow> bool" where
  \<comment> \<open>the regular-expression class \<open>[a-zA-Z0-9_-]\<close>\<close>
  "is_actor_char c = (is_alnum c \<or> c = CHR ''_'' \<or> c = CHR ''-'')"

definition lower_char :: "char \<Rightarrow> char" where
  \<comment> \<open>\<open>str.lower()\<close> on one code point below U+0100: A-Z, and the Latin-1 capitals
      U+00C0 to U+00DE without the multiplication sign U+00D7\<close>
  "lower_char c =
     (let n = (of_char c :: nat)
      in if (65 \<le> n \<and> n \<le> 90) \<or> (192 \<le> n \<and> n \<le> 222 \<and> n \<noteq> 215)
         then char_of (n + 32) else c)"

definition lower :: "string \<Rightarrow> string" where
  "lower s = map lower_char s"

fun starts_with :: "string \<Rightarrow> string \<Rightarrow> bool" where
  "starts_with s [] = True"
| "starts_with [] (p # ps) = False"
| "starts_with (c # cs) (p # ps) = (c = p \<and> starts_with cs ps)"

fun str_in :: "string \<Rightarrow> string \<Rightarrow> bool" where
  \<comment> \<open>Python's \<open>needle in haystack\<close> on strings\<close>
  "str_in needle [] = (needle = [])"
| "str_in needle (c # cs) = (starts_with (c # cs) needle \<or> str_in needle cs)"

fun join :: "string \<Rightarrow> string list \<Rightarrow> string" where
  \<comment> \<open>\<open>sep.join(parts)\<close>\<close>
  "join sep [] = []"
| "join sep [p] = p"
| "join sep (p # q # ps) = p @ sep @ join sep (q # ps)"

section \<open>Actor identifiers\<close>

definition replace_disallowed :: "string \<Rightarrow> string" where
  \<comment> \<open>\<open>re.sub(r'[^a-zA-Z0-9_-]', '_', user_id)\<close>\<close>
  "replace_disallowed s = map (\<lambda>c. if is_actor_char c then c else CHR ''_'') s"

definition strip_leading :: "string \<Rightarrow> string" where
  \<comment> \<open>\<open>re.sub(r'^[^a-zA-Z0-9]+', '', sanitized)\<close>\<close>
  "strip_leading s = dropWhile (\<lambda>c. \<not> is_alnum c) s"

definition strip_trailing :: "string \<Rightarrow> string" where
  \<comment> \<open>\<open>re.sub(r'[^a-zA-Z0-9_-]+$', '', sanitized)\<close>: the only match is the maximal
      run of disallowed characters that ends the string\<close>
  "strip_trailing s = rev (dropWhile (\<lambda>c. \<not> is_actor_char c) (rev s))"

fun collapse_underscores :: "string \<Rightarrow> string" where
  \<comment> \<open>\<open>re.sub(r'_+', '_', sanitized)\<close>: every maximal run of underscores becomes one\<close>
  "collapse_underscores [] = []"
| "collapse_underscores [c] = [c]"
| "collapse_underscores (c # d # cs) =
     (if c = CHR ''_'' \<and> d = CHR ''_'' then collapse_underscores (d # cs)
      else c # collapse_underscores (d # cs))"

definition sanitize_steps :: "string \<Rightarrow> string" where
  \<comment> \<open>the four substitutions, before the \<open>or 'user'\<close> fallback\<close>
  "sanitize_steps uid =
     collapse_underscores (strip_trailing (strip_leading (replace_disallowed uid)))"

definition sanitize_actor_id :: "string \<Rightarrow> string" where
  \<comment> \<open>\<open>_sanitize_actor_id\<close>; \<open>sanitized or 'user'\<close> takes the placeholder exactly when
      the string is empty\<close>
  "sanitize_actor_id uid =
     (let sanitized = sanitize_steps uid in if sanitized = [] then ''user'' else sanitized)"

text \<open>The properties the specification states of an actor identifier.\<close>

definition matches_actor_pattern :: "string \<Rightarrow> bool" where
  \<comment> \<open>a full match of \<open>[A-Za-z0-9][A-Za-z0-9_-]*[A-Za-z0-9_-]\<close>: at least two
      characters, the first alphanumeric, all others of the allowed class\<close>
  "matches_actor_pattern s =
     (case s of [] \<Rightarrow> False | c # cs \<Rightarrow> is_alnum c \<and> cs \<noteq> [] \<and> list_all is_actor_char cs)"

fun repeated_char :: "char \<Rightarrow> string \<Rightarrow> bool" where
  \<comment> \<open>two adjacent occurrences of the character\<close>
  "repeated_char x [] = False"
| "repeated_char x [c] = False"
| "repeated_char x (c # d # cs) = ((c = x \<and> d = x) \<or> repeated_char x (d # cs))"

section \<open>The two stores\<close>

text \<open>
  Both stores are collaborators outside the repository; the memory manager only calls
  them. Their state and their answers are modelled here so that the manager's
  operations can be run. A call to a store either raises or takes effect: each store has
  a script of outcomes, one entry consumed per call, \<open>True\<close> meaning that the call
  raises and leaves the store as it was. An empty script means a healthy store.
\<close>

datatype exn = AttributeError | ValidationError | ServiceError | ResourceNotFound

text \<open>
  An event is the dictionary \<open>list_events\<close> answers with: \<open>eventId\<close>, \<open>eventTimestamp\<close> and
  \<open>payload\<close>, a list whose first entry is either \<open>{'conversational': {'role': ...,
  'content': {'text': ...}}}\<close> or something else. \<open>conv_role = None\<close> is a missing
  \<open>role\<close>; \<open>conv_text = None\<close> is a missing \<open>content\<close> or a missing \<open>text\<close>, which the
  source reads alike as the empty string; an empty \<open>payload\<close> list stands for a missing
  or empty one, which the source skips alike. Times are milliseconds on one clock, which
  only \<open>sleep\<close> moves; \<open>last_updated\<close> holds the time instead of its ISO text.
\<close>

record conversational =
  conv_role :: "string option"
  conv_text :: "string option"

datatype payload_item = Conversational conversational | Blob string

record event =
  eventId :: nat
  actorId :: string
  sessionId :: string
  payload :: "payload_item list"
  eventTimestamp :: nat

record session_row =
  user_id :: string
  session_id :: string
  last_message :: string
  last_response :: string
  last_updated :: nat
  message_count :: int

record world =
  events :: "event list"
  newest_first :: bool
  next_event :: nat
  rows :: "session_row list"
  clock :: nat
  event_faults :: "bool list"
  table_faults :: "bool list"

type_synonym 'a io = "world \<Rightarrow> (exn + 'a) \<times> world"

definition io_return :: "'a \<Rightarrow> 'a io" where
  "io_return x w = (Inr x, w)"

definition io_raise :: "exn \<Rightarrow> 'a io" where
  "io_raise e w = (Inl e, w)"

definition io_bind :: "'a io \<Rightarrow> ('a \<Rightarrow> 'b io) \<Rightarrow> 'b io" where
  \<comment> \<open>sequencing; an exception skips the rest\<close>
  "io_bind act f w = (case act w of (Inl e, w') \<Rightarrow> (Inl e, w') | (Inr x, w') \<Rightarrow> f x w')"

definition io_try :: "'a io \<Rightarrow> (exn \<Rightarrow> 'a io) \<Rightarrow> 'a io" where
  \<comment> \<open>\<open>try: ... except Exception as e: ...\<close>\<close>
  "io_try act handler w =
     (case act w of (Inl e, w') \<Rightarrow> handler e w' | (Inr x, w') \<Rightarrow> (Inr x, w'))"

definition now :: "nat io" where
  \<comment> \<open>\<open>datetime.now()\<close>, in milliseconds\<close>
  "now w = (Inr (clock w), w)"

definition sleep :: "nat \<Rightarrow> unit io" where
  \<comment> \<open>\<open>time.sleep\<close>: the clock moves on by the given number of milliseconds\<close>
  "sleep ms w = (Inr (), w\<lparr>clock := clock w + ms\<rparr>)"

definition event_call :: "'a io \<Rightarrow> 'a io" where
  \<comment> \<open>one call to the event store, after the next entry of its script\<close>
  "event_call act w =
     (case event_faults w of
        [] \<Rightarrow> act w
      | f # fs \<Rightarrow> if f then (Inl ServiceError, w\<lparr>event_faults := fs\<rparr>)
                  else act (w\<lparr>event_faults := fs\<rparr>))"

definition table_call :: "'a io \<Rightarrow> 'a io" where
  \<comment> \<open>one call to the metadata table, after the next entry of its script\<close>
  "table_call act w =
     (case table_faults w of
        [] \<Rightarrow> act w
      | f # fs \<Rightarrow> if f then (Inl ServiceError, w\<lparr>table_faults := fs\<rparr>)
                  else act (w\<lparr>table_faults := fs\<rparr>))"

subsection \<open>Conversation event store\<close>

definition in_session :: "string \<Rightarrow> string \<Rightarrow> event \<Rightarrow> bool" where
  "in_session actor sid e = (actorId e = actor \<and> sessionId e = sid)"

definition session_events :: "world \<Rightarrow> string \<Rightarrow> string \<Rightarrow> event list" where
  "session_events w actor sid = filter (in_session actor sid) (events w)"

definition new_event :: "nat \<Rightarrow> string \<Rightarrow> string \<Rightarrow> (string \<times> string) list \<Rightarrow> nat \<Rightarrow> event" where
  "new_event eid actor sid messages ts =
     \<lparr>eventId = eid, actorId = actor, sessionId = sid,
      payload = map (\<lambda>(text, role).
                  Conversational \<lparr>conv_role = Some role, conv_text = Some text\<rparr>) messages,
      eventTimestamp = ts\<rparr>"

definition create_event ::
  "string option \<Rightarrow> string \<Rightarrow> string \<Rightarrow> (string \<times> string) list \<Rightarrow> nat \<Rightarrow> unit io" where
  \<comment> \<open>Modelled from the spec: the event store's
      \<open>append(resource_id, actor_id, session_id, [(text, role)], timestamp)\<close>, which is
      not code of the repository. One event is appended, with a fresh identifier and one
      conversational payload entry per message. A missing memory identifier is refused.\<close>
  "create_event mem actor sid messages ts =
     event_call (\<lambda>w. case mem of
        None \<Rightarrow> (Inl ValidationError, w)
      | Some _ \<Rightarrow>
          (Inr (), w\<lparr>events := events w @ [new_event (next_event w) actor sid messages ts],
                      next_event := Suc (next_event w)\<rparr>))"

definition listing :: "world \<Rightarrow> string \<Rightarrow> string \<Rightarrow> nat \<Rightarrow> event list" where
  \<comment> \<open>Modelled from the spec: what the event store's
      \<open>list(resource_id, actor_id, session_id, max_results)\<close> answers: at most
      \<open>max_results\<close> events of the actor and session, in the store's own order (oldest
      first or newest first, which the manager does not rely on).\<close>
  "listing w actor sid max_results =
     take max_results (if newest_first w then rev (session_events w actor sid)
                       else session_events w actor sid)"

definition list_events :: "string option \<Rightarrow> string \<Rightarrow> string \<Rightarrow> nat \<Rightarrow> event list io" where
  \<comment> \<open>the call of \<open>list\<close>; a missing memory identifier is refused\<close>
  "list_events mem actor sid max_results =
     event_call (\<lambda>w. case mem of
        None \<Rightarrow> (Inl ValidationError, w)
      | Some _ \<Rightarrow> (Inr (listing w actor sid max_results), w))"

definition is_event :: "string \<Rightarrow> nat \<Rightarrow> string \<Rightarrow> event \<Rightarrow> bool" where
  "is_event sid eid actor e = (eventId e = eid \<and> in_session actor sid e)"

definition delete_event :: "string option \<Rightarrow> string \<Rightarrow> nat \<Rightarrow> string \<Rightarrow> unit io" where
  \<comment> \<open>Modelled from the spec: the event store's
      \<open>delete(resource_id, session_id, event_id, actor_id)\<close>; deleting an event that is
      not there raises.\<close>
  "delete_event mem sid eid actor =
     event_call (\<lambda>w. case mem of
        None \<Rightarrow> (Inl ValidationError, w)
      | Some _ \<Rightarrow>
          if list_ex (is_event sid eid actor) (events w)
          then (Inr (), w\<lparr>events := filter (\<lambda>e. \<not> is_event sid eid actor e) (events w)\<rparr>)
          else (Inl ResourceNotFound, w))"

subsection \<open>Metadata table\<close>

text \<open>
  The table's key schema is in the source (\<open>_create_session_table\<close>): partition key
  \<open>user_id\<close>, sort key \<open>session_id\<close>. A row is identified by the pair.
\<close>

definition has_key :: "string \<Rightarrow> string \<Rightarrow> session_row \<Rightarrow> bool" where
  "has_key uid sid r = (user_id r = uid \<and> session_id r = sid)"

definition table_load :: "unit io" where
  "table_load = table_call (io_return ())"

definition get_item :: "string \<Rightarrow> string \<Rightarrow> session_row option io" where
  \<comment> \<open>Modelled from the spec: the table's \<open>get(user_id, session_id)\<close>\<close>
  "get_item uid sid = table_call (\<lambda>w. (Inr (find (has_key uid sid) (rows w)), w))"

definition put_item :: "session_row \<Rightarrow> unit io" where
  \<comment> \<open>Modelled from the spec: the table's \<open>put(item)\<close>; a row with the same key is
      replaced\<close>
  "put_item r =
     table_call (\<lambda>w. (Inr (), w\<lparr>rows :=
        filter (\<lambda>x. \<not> has_key (user_id r) (session_id r) x) (rows w) @ [r]\<rparr>))"

definition query :: "string \<Rightarrow> int \<Rightarrow> session_row list io" where
  \<comment> \<open>Modelled from the spec: the table's
      \<open>query(partition_key=user_id, order=descending, limit)\<close>, as the source calls it
      (\<open>ScanIndexForward=False, Limit=limit\<close>): the rows of the partition in descending
      order of the sort key, at most \<open>limit\<close> of them; a limit below 1 is refused.\<close>
  "query uid limit =
     table_call (\<lambda>w.
        if limit < 1 then (Inl ValidationError, w)
        else (Inr (take (nat limit)
                     (rev (sort_key session_id (filter (\<lambda>r. user_id r = uid) (rows w))))), w))"

definition delete_item :: "string \<Rightarrow> string \<Rightarrow> unit io" where
  \<comment> \<open>Modelled from the spec: the table's \<open>delete(user_id, session_id)\<close>\<close>
  "delete_item uid sid =
     table_call (\<lambda>w. (Inr (), w\<lparr>rows := filter (\<lambda>x. \<not> has_key uid sid x) (rows w)\<rparr>))"

section \<open>The memory manager\<close>

record manager =
  initialized :: bool
  memory_client :: bool
  memory_id :: "string option"
  session_table :: bool

text \<open>
  \<open>memory_client\<close> and \<open>session_table\<close> say whether the attribute holds an object or
  \<open>None\<close>. A method call on \<open>self.memory_client\<close> when it is \<open>None\<close> raises.
\<close>

definition client :: "manager \<Rightarrow> 'a io \<Rightarrow> 'a io" where
  "client m act = (if memory_client m then act else io_raise AttributeError)"

record message =
  role :: string
  content :: string
  timestamp :: nat

definition update_session_metadata ::
  "manager \<Rightarrow> string \<Rightarrow> string \<Rightarrow> string \<Rightarrow> string \<Rightarrow> unit io" where
  \<comment> \<open>\<open>_update_session_metadata\<close>\<close>
  "update_session_metadata m uid sid last_msg response =
     (if \<not> session_table m then io_return ()
      else io_try
        (io_bind now (\<lambda>ts.
         io_bind (io_try
                    (io_bind (get_item uid sid) (\<lambda>existing.
                       io_return ((case existing of None \<Rightarrow> 0 | Some r \<Rightarrow> message_count r) + 1)))
                    (\<lambda>_. io_return 1)) (\<lambda>count.
         put_item \<lparr>user_id = uid, session_id = sid,
                   last_message = take 100 last_msg, last_response = take 100 response,
                   last_updated = ts, message_count = count\<rparr>)))
        (\<lambda>_. io_return ()))"

definition store_message ::
  "manager \<Rightarrow> string \<Rightarrow> string \<Rightarrow> string \<Rightarrow> string \<Rightarrow> unit io" where
  "store_message m uid sid msg response =
     (if \<not> initialized m then io_return ()
      else io_try
        (let actor_id = sanitize_actor_id uid in
         io_bind now (\<lambda>base_timestamp.
         io_bind (client m (create_event (memory_id m) actor_id sid
                              [(msg, ''USER'')] base_timestamp)) (\<lambda>_.
         io_bind (sleep 100) (\<lambda>_.
         io_bind now (\<lambda>response_timestamp.
         io_bind (client m (create_event (memory_id m) actor_id sid
                              [(response, ''ASSISTANT'')] response_timestamp)) (\<lambda>_.
         update_session_metadata m uid sid msg response))))))
        (\<lambda>_. io_return ()))"

definition parse_event :: "event \<Rightarrow> message option" where
  \<comment> \<open>the body of the loop over the listed events: the turn it appends, if any\<close>
  "parse_event ev =
     (case payload ev of
        [] \<Rightarrow> None
      | Blob _ # _ \<Rightarrow> None
      | Conversational conv # _ \<Rightarrow>
          (let role_str = (case conv_role conv of None \<Rightarrow> ''USER'' | Some r \<Rightarrow> r);
               text = (case conv_text conv of None \<Rightarrow> [] | Some t \<Rightarrow> t)
           in if text \<noteq> []
              then Some \<lparr>role = (if role_str = ''USER'' then ''user'' else ''assistant''),
                         content = text, timestamp = eventTimestamp ev\<rparr>
              else None))"

definition get_session_messages :: "manager \<Rightarrow> string \<Rightarrow> string \<Rightarrow> message list io" where
  \<comment> \<open>\<open>sorted\<close> is stable, as \<open>sort_key\<close> is\<close>
  "get_session_messages m uid sid =
     (if \<not> initialized m then io_return []
      else io_try
        (let actor_id = sanitize_actor_id uid in
         io_bind (client m (list_events (memory_id m) actor_id sid 100)) (\<lambda>evs.
         io_return (sort_key timestamp (List.map_filter parse_event evs))))
        (\<lambda>_. io_return []))"

definition last_slice :: "int \<Rightarrow> 'a list \<Rightarrow> 'a list" where
  \<comment> \<open>the Python slice \<open>xs[-n:]\<close>: a negative start counts from the end and is clamped
      to the front; \<open>-0\<close> is \<open>0\<close>, the front; a positive start is clamped to the end\<close>
  "last_slice n xs = (if 0 < n then drop (length xs - nat n) xs else drop (nat (- n)) xs)"

definition render_turn :: "message \<Rightarrow> string" where
  "render_turn msg =
     (if role msg = ''user'' then ''Human'' else ''Assistant'') @ '': '' @ take 200 (content msg)"

definition get_conversation_context ::
  "manager \<Rightarrow> string \<Rightarrow> string \<Rightarrow> string \<Rightarrow> int \<Rightarrow> string io" where
  "get_conversation_context m uid sid qry max_messages =
     io_bind (get_session_messages m uid sid) (\<lambda>messages.
       let recent_messages = (if messages \<noteq> [] then last_slice max_messages messages else [])
       in io_return (join [CHR 0x0A] (map render_turn recent_messages)))"

definition get_user_sessions :: "manager \<Rightarrow> string \<Rightarrow> int \<Rightarrow> session_row list io" where
  "get_user_sessions m uid limit =
     (if \<not> session_table m then io_return []
      else io_try
        (io_bind table_load (\<lambda>_.
         io_bind (query uid limit) (\<lambda>sessions. io_return sessions)))
        (\<lambda>_. io_return []))"

record preferences =
  communication_style :: string
  preferred_topics :: "string list"
  common_issues :: "string list"
  response_length :: string

definition initial_preferences :: preferences where
  "initial_preferences =
     \<lparr>communication_style = ''professional'', preferred_topics = [], common_issues = [],
      response_length = ''medium''\<rparr>"

fun collect_messages :: "manager \<Rightarrow> string \<Rightarrow> session_row list \<Rightarrow> message list io" where
  \<comment> \<open>the loop over the sessions, extending \<open>all_messages\<close>\<close>
  "collect_messages m uid [] = io_return []"
| "collect_messages m uid (s # ss) =
     io_bind (get_session_messages m uid (session_id s)) (\<lambda>session_messages.
     io_bind (collect_messages m uid ss) (\<lambda>rest. io_return (session_messages @ rest)))"

definition note_message :: "preferences \<Rightarrow> message \<Rightarrow> preferences" where
  \<comment> \<open>the body of the loop over the user messages: the if/elif chain\<close>
  "note_message p msg =
     (let text = lower (content msg)
      in if str_in ''warranty'' text
         then p\<lparr>common_issues := common_issues p @ [''warranty'']\<rparr>
         else if str_in ''profile'' text \<or> str_in ''account'' text
         then p\<lparr>common_issues := common_issues p @ [''account'']\<rparr>
         else if str_in ''mars'' text \<or> str_in ''weather'' text
         then p\<lparr>preferred_topics := preferred_topics p @ [''space_data'']\<rparr>
         else p)"

definition recent_user_messages :: "message list \<Rightarrow> message list" where
  \<comment> \<open>\<open>user_messages[-20:]\<close>, the messages the loop inspects\<close>
  "recent_user_messages all_messages =
     (let user_messages = filter (\<lambda>msg. role msg = ''user'') all_messages
      in last_slice 20 user_messages)"

definition scan_messages :: "message list \<Rightarrow> preferences" where
  \<comment> \<open>from \<open>all_messages\<close> to the returned mapping. \<open>list(set(xs))\<close> keeps one copy of
      each element in an order Python does not fix; \<open>remdups\<close> stands for one such order,
      and nothing below depends on it.\<close>
  "scan_messages all_messages =
     (let p = foldl note_message initial_preferences (recent_user_messages all_messages)
      in p\<lparr>common_issues := remdups (common_issues p),
            preferred_topics := remdups (preferred_topics p)\<rparr>)"

definition get_user_preferences :: "manager \<Rightarrow> string \<Rightarrow> preferences io" where
  "get_user_preferences m uid =
     io_bind (get_user_sessions m uid 5) (\<lambda>sessions.
     io_bind (collect_messages m uid sessions) (\<lambda>all_messages.
     io_return (scan_messages all_messages)))"

definition suggest :: "preferences \<Rightarrow> string \<Rightarrow> string list" where
  \<comment> \<open>the body of \<open>generate_follow_up_questions\<close> after the preferences are read\<close>
  "suggest prefs current_query =
     (let f0 = [];
          f1 = (if ''warranty'' \<in> set (common_issues prefs)
                then f0 @ [''Would you like me to check the warranty status of any other products?'']
                else f0);
          f2 = (if ''account'' \<in> set (common_issues prefs)
                then f1 @ [''Do you need help updating your account information?'']
                else f1);
          current_lower = lower current_query;
          f3 = (if str_in ''warranty'' current_lower
                then f2 @ [''Would you like me to explain the warranty coverage details?'',
                           ''Do you need help with a warranty claim process?'']
                else if str_in ''profile'' current_lower \<or> str_in ''customer'' current_lower
                then f2 @ [''Would you like to update any of your profile information?'',
                           ''Do you need help with your communication preferences?'']
                else if str_in ''mars'' current_lower
                then f2 @ [''Would you like to know about Mars atmospheric conditions?'',
                           ''Are you interested in historical Mars weather data?'']
                else f2)
      in take 3 f3)"

definition generate_follow_up_questions :: "manager \<Rightarrow> string \<Rightarrow> string \<Rightarrow> string list io" where
  "generate_follow_up_questions m uid current_query =
     io_bind (get_user_preferences m uid) (\<lambda>prefs. io_return (suggest prefs current_query))"

definition initial_row :: "string \<Rightarrow> string \<Rightarrow> nat \<Rightarrow> session_row" where
  \<comment> \<open>the item \<open>create_session\<close> puts\<close>
  "initial_row uid sid ts =
     \<lparr>user_id = uid, session_id = sid, last_message = ''New session started'',
      last_response = [], last_updated = ts, message_count = 0\<rparr>"

definition create_session :: "manager \<Rightarrow> string \<Rightarrow> string \<Rightarrow> string io" where
  \<comment> \<open>\<open>uuid\<close> is the text of the identifier \<open>uuid.uuid4()\<close> returns\<close>
  "create_session m uid uuid =
     (let sid = ''session-'' @ uuid in
      io_bind (if session_table m
               then io_try (io_bind now (\<lambda>ts. put_item (initial_row uid sid ts)))
                           (\<lambda>_. io_return ())
               else io_return ()) (\<lambda>_.
      io_return sid))"

fun delete_events :: "manager \<Rightarrow> string \<Rightarrow> string \<Rightarrow> event list \<Rightarrow> nat io" where
  \<comment> \<open>the loop over the listed events; the result is \<open>deleted_count\<close>\<close>
  "delete_events m actor_id sid [] = io_return 0"
| "delete_events m actor_id sid (ev # evs) =
     io_bind (io_try
                (io_bind (client m (delete_event (memory_id m) sid (eventId ev) actor_id))
                   (\<lambda>_. io_return (1::nat)))
                (\<lambda>_. io_return 0)) (\<lambda>d.
     io_bind (delete_events m actor_id sid evs) (\<lambda>n. io_return (d + n)))"

definition delete_session :: "manager \<Rightarrow> string \<Rightarrow> string \<Rightarrow> bool io" where
  "delete_session m uid sid =
     io_try
       (let actor_id = sanitize_actor_id uid in
        io_bind (client m (list_events (memory_id m) actor_id sid 100)) (\<lambda>evs.
        io_bind (delete_events m actor_id sid evs) (\<lambda>deleted_count.
        io_bind (if session_table m
                 then io_try (delete_item uid sid) (\<lambda>_. io_return ())
                 else io_return ()) (\<lambda>_.
        io_return (deleted_count > 0)))))
       (\<lambda>_. io_return False)"

definition is_available :: "manager \<Rightarrow> bool" where
  "is_available m = (initialized m \<and> memory_client m)"

section \<open>Notions of the specification\<close>

definition history_based :: "preferences \<Rightarrow> string list" where
  \<comment> \<open>the canned suggestions keyed off the user's historical categories\<close>
  "history_based prefs =
     (if ''warranty'' \<in> set (common_issues prefs)
      then [''Would you like me to check the warranty status of any other products?'']
      else []) @
     (if ''account'' \<in> set (common_issues prefs)
      then [''Do you need help updating your account information?'']
      else [])"

definition query_based :: "string \<Rightarrow> string list" where
  \<comment> \<open>the canned suggestions keyed off keywords of the current query\<close>
  "query_based current_query =
     (if str_in ''warranty'' (lower current_query)
      then [''Would you like me to explain the warranty coverage details?'',
            ''Do you need help with a warranty claim process?'']
      else if str_in ''profile'' (lower current_query) \<or> str_in ''customer'' (lower current_query)
      then [''Would you like to update any of your profile information?'',
            ''Do you need help with your communication preferences?'']
      else if str_in ''mars'' (lower current_query)
      then [''Would you like to know about Mars atmospheric conditions?'',
            ''Are you interested in historical Mars weather data?'']
      else [])"

text \<open>Whether the next call to a store is scripted to fail.\<close>

definition next_table_call_fails :: "world \<Rightarrow> bool" where
  "next_table_call_fails w = (case table_faults w of [] \<Rightarrow> False | f # _ \<Rightarrow> f)"

definition next_event_call_fails :: "world \<Rightarrow> bool" where
  "next_event_call_fails w = (case event_faults w of [] \<Rightarrow> False | f # _ \<Rightarrow> f)"




section \<open>Frame conditions\<close>

definition event_view :: "world \<Rightarrow> event list \<times> bool \<times> nat \<times> bool list \<times> nat" where
  \<comment> \<open>what the event store and the clock are made of\<close>
  "event_view w = (events w, newest_first w, next_event w, event_faults w, clock w)"

definition table_view :: "world \<Rightarrow> session_row list \<times> bool list" where
  \<comment> \<open>what the metadata table is made of\<close>
  "table_view w = (rows w, table_faults w)"

definition keeps :: "(world \<Rightarrow> 'b) \<Rightarrow> 'a io \<Rightarrow> bool" where
  \<comment> \<open>the action leaves that part of the world as it was\<close>
  "keeps view act = (\<forall>w. view (snd (act w)) = view w)"

section \<open>Example inputs\<close>

definition ready :: manager where
  \<comment> \<open>a manager after a successful initialization\<close>
  "ready = \<lparr>initialized = True, memory_client = True,
            memory_id = Some ''customerSupportMemory-1'', session_table = True\<rparr>"


definition empty_world :: world where
  "empty_world = \<lparr>events = [], newest_first = False, next_event = 0, rows = [],
                  clock = 1000, event_faults = [], table_faults = []\<rparr>"

definition turn_event :: "nat \<Rightarrow> string \<Rightarrow> string \<Rightarrow> string \<Rightarrow> string \<Rightarrow> event" where
  \<comment> \<open>the event number \<open>i\<close> of a session, as \<open>create_event\<close> stores it at time \<open>i\<close>\<close>
  "turn_event i actor sid role_str text =
     \<lparr>eventId = i, actorId = actor, sessionId = sid,
      payload = [Conversational \<lparr>conv_role = Some role_str, conv_text = Some text\<rparr>],
      eventTimestamp = i\<rparr>"

definition example_row :: "string \<Rightarrow> string \<Rightarrow> nat \<Rightarrow> session_row" where
  "example_row uid sid ts =
     \<lparr>user_id = uid, session_id = sid, last_message = ''hello'', last_response = ''hi'',
      last_updated = ts, message_count = 1\<rparr>"

definition history_world :: world where
  \<comment> \<open>one session of user \<open>u\<close> with two user turns and their answers\<close>
  "history_world = empty_world
     \<lparr>events := [turn_event 0 ''u'' ''session-1'' ''USER'' ''check my warranty status'',
                 turn_event 1 ''u'' ''session-1'' ''ASSISTANT'' ''It is valid until May.'',
                 turn_event 2 ''u'' ''session-1'' ''USER'' ''Please update my Account'',
                 turn_event 3 ''u'' ''session-1'' ''ASSISTANT'' ''Done.''],
       next_event := 4,
       rows := [example_row ''u'' ''session-1'' 3]\<rparr>"

definition topics_world :: world where
  \<comment> \<open>one session of user \<open>u\<close>: a warranty question and a Mars weather question\<close>
  "topics_world = empty_world
     \<lparr>events := [turn_event 0 ''u'' ''session-1'' ''USER'' ''check my warranty status'',
                 turn_event 1 ''u'' ''session-1'' ''ASSISTANT'' ''It is valid until May.'',
                 turn_event 2 ''u'' ''session-1'' ''USER'' ''mars weather'',
                 turn_event 3 ''u'' ''session-1'' ''ASSISTANT'' ''Cold and dusty.''],
       next_event := 4,
       rows := [example_row ''u'' ''session-1'' 3]\<rparr>"


definition long_turn :: "nat \<Rightarrow> event" where
  \<comment> \<open>questions at even positions, answers at odd ones\<close>
  "long_turn i =
     turn_event i ''u'' ''session-1'' (if even i then ''USER'' else ''ASSISTANT'')
       (if even i then ''question'' else ''answer'')"

definition long_session_world :: world where
  \<comment> \<open>one session of user \<open>u\<close> after 51 stored turns: 102 events\<close>
  "long_session_world = empty_world
     \<lparr>events := map long_turn [0..<102], next_event := 102,
       rows := [example_row ''u'' ''session-1'' 101]\<rparr>"



section \<open>Sanitization of actor identifiers\<close>

lemma replace_disallowed_allowed: "list_all is_actor_char (replace_disallowed s)"
  by (induction s) (auto simp: replace_disallowed_def is_actor_char_def)

lemma strip_leading_allowed:
  "list_all is_actor_char s \<Longrightarrow> list_all is_actor_char (strip_leading s)"
  unfolding strip_leading_def by (induction s) auto

lemma strip_leading_head: "strip_leading s \<noteq> [] \<Longrightarrow> is_alnum (hd (strip_leading s))"
  unfolding strip_leading_def using hd_dropWhile[of "\<lambda>c. \<not> is_alnum c" s] by simp

lemma strip_trailing_allowed:
  assumes "list_all is_actor_char s"
  shows "strip_trailing s = s"
proof -
  have "dropWhile (\<lambda>c. \<not> is_actor_char c) (rev s) = rev s"
  proof (cases "rev s")
    case Nil
    then show ?thesis by simp
  next
    case (Cons c cs)
    then have "c \<in> set s" by (metis list.set_intros(1) set_rev)
    with assms have "is_actor_char c" by (simp add: list_all_iff)
    with Cons show ?thesis by simp
  qed
  then show ?thesis by (simp add: strip_trailing_def)
qed

lemma collapse_allowed:
  "list_all is_actor_char s \<Longrightarrow> list_all is_actor_char (collapse_underscores s)"
  by (induction s rule: collapse_underscores.induct) auto

lemma collapse_empty: "collapse_underscores s = [] \<longleftrightarrow> s = []"
  by (induction s rule: collapse_underscores.induct) auto

lemma collapse_hd: "s \<noteq> [] \<Longrightarrow> hd (collapse_underscores s) = hd s"
  by (induction s rule: collapse_underscores.induct) auto

lemma collapse_no_repeat: "\<not> repeated_char (CHR ''_'') (collapse_underscores s)"
proof (induction s rule: collapse_underscores.induct)
  case (3 c d cs)
  then show ?case
    using collapse_hd[of "d # cs"] collapse_empty[of "d # cs"]
    by (cases "collapse_underscores (d # cs)") auto
qed auto

lemma sanitize_steps_allowed: "list_all is_actor_char (sanitize_steps uid)"
  unfolding sanitize_steps_def
  by (simp add: strip_trailing_allowed strip_leading_allowed replace_disallowed_allowed
      collapse_allowed)

lemma sanitize_steps_head:
  assumes "sanitize_steps uid \<noteq> []"
  shows "is_alnum (hd (sanitize_steps uid))"
proof -
  let ?s = "strip_leading (replace_disallowed uid)"
  have eq: "sanitize_steps uid = collapse_underscores ?s"
    unfolding sanitize_steps_def
    by (simp add: strip_trailing_allowed strip_leading_allowed replace_disallowed_allowed)
  with assms have ne: "?s \<noteq> []" by (simp add: collapse_empty)
  then have "is_alnum (hd ?s)" by (rule strip_leading_head)
  with eq ne show ?thesis by (simp add: collapse_hd)
qed

lemma is_alnum_user: "is_alnum (CHR ''u'')" "list_all is_actor_char ''user''"
  by (simp_all add: is_alnum_def is_actor_char_def)

text \<open>
  C1 (amended). For every \<open>user_id\<close> the actor identifier is non-empty, consists of
  alphanumerics, hyphens and underscores only, starts with an alphanumeric, has no two
  consecutive underscores, is the placeholder \<open>user\<close> when the substitutions leave
  nothing, and matches \<open>[A-Za-z0-9][A-Za-z0-9_-]*[A-Za-z0-9_-]\<close> whenever it has at least
  two characters.
\<close>

theorem sanitize_actor_id_contract:
  "sanitize_actor_id uid \<noteq> []
   \<and> list_all is_actor_char (sanitize_actor_id uid)
   \<and> is_alnum (hd (sanitize_actor_id uid))
   \<and> \<not> repeated_char (CHR ''_'') (sanitize_actor_id uid)
   \<and> (sanitize_steps uid = [] \<longrightarrow> sanitize_actor_id uid = ''user'')
   \<and> (2 \<le> length (sanitize_actor_id uid) \<longrightarrow> matches_actor_pattern (sanitize_actor_id uid))"
proof (cases "sanitize_steps uid = []")
  case True
  then have "sanitize_actor_id uid = ''user''" by (simp add: sanitize_actor_id_def)
  then show ?thesis
    using True is_alnum_user by (simp add: matches_actor_pattern_def)
next
  case False
  then have eq: "sanitize_actor_id uid = sanitize_steps uid"
    by (simp add: sanitize_actor_id_def)
  obtain c cs where cs: "sanitize_steps uid = c # cs"
    using False by (cases "sanitize_steps uid") auto
  have all: "list_all is_actor_char (c # cs)"
    using sanitize_steps_allowed[of uid] cs by simp
  have hd: "is_alnum c"
    using sanitize_steps_head[OF False] cs by simp
  have rep: "\<not> repeated_char (CHR ''_'') (c # cs)"
    using collapse_no_repeat[of "strip_trailing (strip_leading (replace_disallowed uid))"] cs
    by (simp add: sanitize_steps_def)
  have pat: "2 \<le> length (c # cs) \<longrightarrow> matches_actor_pattern (c # cs)"
    using all hd by (cases cs) (auto simp: matches_actor_pattern_def)
  show ?thesis
    unfolding eq cs using all hd rep pat False cs by simp
qed

theorem sanitize_actor_id_contract_witness:
  "sanitize_actor_id ''john.doe@example.com'' = ''john_doe_example_com''
   \<and> 2 \<le> length (sanitize_actor_id ''john.doe@example.com'')
   \<and> matches_actor_pattern (sanitize_actor_id ''john.doe@example.com'')
   \<and> sanitize_steps ''.@'' = []
   \<and> sanitize_actor_id ''.@'' = ''user''"
proof -
  have a: "sanitize_actor_id ''john.doe@example.com'' = ''john_doe_example_com''"
    by code_simp
  have b: "sanitize_steps ''.@'' = []"
    by code_simp
  have c: "2 \<le> length (sanitize_actor_id ''john.doe@example.com'')"
    unfolding a by simp
  have d: "matches_actor_pattern (sanitize_actor_id ''john.doe@example.com'')"
    using sanitize_actor_id_contract[of "''john.doe@example.com''"] c by blast
  have e: "sanitize_actor_id ''.@'' = ''user''"
    using sanitize_actor_id_contract[of "''.@''"] b by blast
  show ?thesis
    using a b c d e by blast
qed

text \<open>
  C1 as stated fails: a one-character identifier is returned as it is and is too short
  for the pattern, and hyphens are never collapsed, so separators can repeat.
\<close>

theorem sanitize_actor_id_counterexample:
  "sanitize_actor_id ''a'' = ''a''
   \<and> \<not> matches_actor_pattern (sanitize_actor_id ''a'')
   \<and> sanitize_actor_id ''a--b'' = ''a--b''
   \<and> repeated_char (CHR ''-'') (sanitize_actor_id ''a--b'')"
proof -
  have a: "sanitize_actor_id ''a'' = ''a''"
    by code_simp
  have b: "sanitize_actor_id ''a--b'' = ''a--b''"
    by code_simp
  show ?thesis
    unfolding a b by (simp add: matches_actor_pattern_def)
qed

section \<open>Sequencing and exception handling\<close>

lemma io_bind_return [simp]: "io_bind (io_return x) f = f x"
  by (rule ext) (simp add: io_bind_def io_return_def)

lemma io_bind_raise [simp]: "io_bind (io_raise e) f = io_raise e"
  by (rule ext) (simp add: io_bind_def io_raise_def)

lemma io_try_return [simp]: "io_try (io_return x) h = io_return x"
  by (rule ext) (simp add: io_try_def io_return_def)

lemma io_try_raise [simp]: "io_try (io_raise e) h = h e"
  by (rule ext) (simp add: io_try_def io_raise_def)


lemma io_bind_Inl: "act w = (Inl e, w') \<Longrightarrow> io_bind act f w = (Inl e, w')"
  by (simp add: io_bind_def)

lemma io_try_Inr: "act w = (Inr x, w') \<Longrightarrow> io_try act h w = (Inr x, w')"
  by (simp add: io_try_def)

lemma io_try_Inl: "act w = (Inl e, w') \<Longrightarrow> io_try act h w = h e w'"
  by (simp add: io_try_def)

lemma io_cases:
  obtains (Raise) e w' where "act w = (Inl e, w')" | (Return) x w' where "act w = (Inr x, w')"
  by (cases "act w") (metis sum.exhaust_sel prod.collapse fst_conv)

lemma io_try_returns:
  assumes "\<And>e w. \<exists>x w'. h e w = (Inr x, w')"
  shows "\<exists>x w'. io_try act h w = (Inr x, w')"
proof (cases rule: io_cases[of act w])
  case (Raise e w')
  then show ?thesis using assms[of e w'] by (simp add: io_try_Inl)
next
  case (Return x w')
  then show ?thesis by (simp add: io_try_Inr)
qed

lemma io_try_const_returns: "\<exists>x w'. io_try act (\<lambda>_. io_return v) w = (Inr x, w')"
  by (rule io_try_returns) (simp add: io_return_def)


section \<open>No operation raises\<close>


lemma get_session_messages_returns:
  "\<exists>msgs w'. get_session_messages m uid sid w = (Inr msgs, w')"
proof (cases "initialized m")
  case True
  then show ?thesis
    using io_try_const_returns[of _ "[]" w] by (simp add: get_session_messages_def)
next
  case False
  then show ?thesis by (simp add: get_session_messages_def io_return_def)
qed


lemma get_user_sessions_returns: "\<exists>ss w'. get_user_sessions m uid limit w = (Inr ss, w')"
proof (cases "session_table m")
  case True
  then show ?thesis
    using io_try_const_returns[of _ "[]" w] by (simp add: get_user_sessions_def)
next
  case False
  then show ?thesis by (simp add: get_user_sessions_def io_return_def)
qed

lemma collect_messages_returns: "\<exists>msgs w'. collect_messages m uid ss w = (Inr msgs, w')"
proof (induction ss arbitrary: w)
  case Nil
  then show ?case by (simp add: io_return_def)
next
  case (Cons s ss)
  obtain a w1 where a: "get_session_messages m uid (session_id s) w = (Inr a, w1)"
    using get_session_messages_returns by blast
  obtain b w2 where b: "collect_messages m uid ss w1 = (Inr b, w2)"
    using Cons.IH by blast
  show ?case by (simp add: io_bind_def a b io_return_def)
qed

lemma get_user_preferences_returns:
  "\<exists>all_messages w'. get_user_preferences m uid w = (Inr (scan_messages all_messages), w')"
proof -
  obtain ss w1 where a: "get_user_sessions m uid 5 w = (Inr ss, w1)"
    using get_user_sessions_returns by blast
  obtain ms w2 where b: "collect_messages m uid ss w1 = (Inr ms, w2)"
    using collect_messages_returns by blast
  show ?thesis
    by (auto simp: get_user_preferences_def io_bind_def a b io_return_def)
qed


lemma generate_follow_up_questions_eq:
  "get_user_preferences m uid w = (Inr prefs, w') \<Longrightarrow>
   generate_follow_up_questions m uid q w = (Inr (suggest prefs q), w')"
  by (simp add: generate_follow_up_questions_def io_bind_def io_return_def)


lemma delete_session_returns: "\<exists>b w'. delete_session m uid sid w = (Inr b, w')"
  unfolding delete_session_def by (rule io_try_const_returns)

section \<open>Follow-up questions\<close>

lemma suggest_eq: "suggest prefs q = take 3 (history_based prefs @ query_based q)"
  by (simp add: suggest_def history_based_def query_based_def Let_def)

text \<open>
  C7. \<open>generate_follow_up_questions\<close> returns the first three entries of the history-based
  suggestions followed by the query-based ones, so never more than three; when both of
  the user's categories and a query keyword match, four candidates are cut to the two
  history-based ones and the first query-based one, nothing being reordered or merged.
\<close>

theorem generate_follow_up_questions_first_three:
  "(\<exists>prefs w'. get_user_preferences m uid w = (Inr prefs, w')
       \<and> generate_follow_up_questions m uid q w
           = (Inr (take 3 (history_based prefs @ query_based q)), w')
       \<and> length (take 3 (history_based prefs @ query_based q)) \<le> 3)
   \<and> (\<forall>prefs. ''warranty'' \<in> set (common_issues prefs)
          \<and> ''account'' \<in> set (common_issues prefs)
          \<and> str_in ''warranty'' (lower q)
        \<longrightarrow> length (history_based prefs @ query_based q) = 4
            \<and> suggest prefs q =
                [''Would you like me to check the warranty status of any other products?'',
                 ''Do you need help updating your account information?'',
                 ''Would you like me to explain the warranty coverage details?''])"
proof -
  obtain ms w' where p: "get_user_preferences m uid w = (Inr (scan_messages ms), w')"
    using get_user_preferences_returns by blast
  have "generate_follow_up_questions m uid q w
          = (Inr (take 3 (history_based (scan_messages ms) @ query_based q)), w')"
    using generate_follow_up_questions_eq[OF p] by (simp add: suggest_eq)
  with p have first: "\<exists>prefs w'. get_user_preferences m uid w = (Inr prefs, w')
       \<and> generate_follow_up_questions m uid q w
           = (Inr (take 3 (history_based prefs @ query_based q)), w')
       \<and> length (take 3 (history_based prefs @ query_based q)) \<le> 3"
    by auto
  have second: "\<forall>prefs. ''warranty'' \<in> set (common_issues prefs)
          \<and> ''account'' \<in> set (common_issues prefs)
          \<and> str_in ''warranty'' (lower q)
        \<longrightarrow> length (history_based prefs @ query_based q) = 4
            \<and> suggest prefs q =
                [''Would you like me to check the warranty status of any other products?'',
                 ''Do you need help updating your account information?'',
                 ''Would you like me to explain the warranty coverage details?'']"
    by (simp add: suggest_eq history_based_def query_based_def)
  from first second show ?thesis by blast
qed

lemma history_world_preferences:
  "fst (get_user_preferences ready ''u'' history_world)
     = Inr \<lparr>communication_style = ''professional'', preferred_topics = [],
            common_issues = [''warranty'', ''account''], response_length = ''medium''\<rparr>"
  by code_simp

theorem generate_follow_up_questions_first_three_witness:
  "fst (generate_follow_up_questions ready ''u'' ''What does my WARRANTY cover?'' history_world)
     = Inr [''Would you like me to check the warranty status of any other products?'',
            ''Do you need help updating your account information?'',
            ''Would you like me to explain the warranty coverage details?'']"
proof -
  let ?q = "''What does my WARRANTY cover?''"
  let ?p = "\<lparr>communication_style = ''professional'', preferred_topics = [],
            common_issues = [''warranty'', ''account''], response_length = ''medium''\<rparr>"
  have q: "str_in ''warranty'' (lower ?q)"
    by code_simp
  from generate_follow_up_questions_first_three[of ready "''u''" history_world ?q]
  obtain prefs w' where
    a: "get_user_preferences ready ''u'' history_world = (Inr prefs, w')" and
    b: "generate_follow_up_questions ready ''u'' ?q history_world
          = (Inr (take 3 (history_based prefs @ query_based ?q)), w')" and
    c: "''warranty'' \<in> set (common_issues ?p) \<and> ''account'' \<in> set (common_issues ?p)
          \<and> str_in ''warranty'' (lower ?q)
        \<longrightarrow> suggest ?p ?q =
                [''Would you like me to check the warranty status of any other products?'',
                 ''Do you need help updating your account information?'',
                 ''Would you like me to explain the warranty coverage details?'']"
    by blast
  from a have "prefs = ?p"
    using history_world_preferences by simp
  with b c q show ?thesis
    by (simp add: suggest_eq)
qed

section \<open>Preference inference\<close>
















section \<open>Session creation\<close>

lemma create_session_effect:
  "\<exists>w'. create_session m uid uuid w = (Inr (''session-'' @ uuid), w')
      \<and> events w' = events w
      \<and> rows w' = (if session_table m \<and> \<not> next_table_call_fails w
                   then filter (\<lambda>x. \<not> has_key uid (''session-'' @ uuid) x) (rows w)
                        @ [initial_row uid (''session-'' @ uuid) (clock w)]
                   else rows w)"
  by (auto simp: create_session_def Let_def io_bind_def io_try_def io_return_def now_def
      put_item_def table_call_def next_table_call_fails_def initial_row_def
      split: list.splits)

text \<open>
  C4 (amended). \<open>create_session\<close> always returns the generated identifier, which is
  non-empty, and never raises. With the table attached and the write succeeding, the
  table then holds, under the user and the new identifier, a row with
  \<open>message_count = 0\<close>, the preview \<open>New session started\<close> for the last message, an empty
  preview for the last response, and the current time; without the table, or when the
  write fails, the table is as before. The event store is never touched.
\<close>

theorem create_session_contract:
  "\<exists>w'. create_session m uid uuid w = (Inr (''session-'' @ uuid), w')
      \<and> ''session-'' @ uuid \<noteq> []
      \<and> events w' = events w
      \<and> (session_table m \<and> \<not> next_table_call_fails w \<longrightarrow>
           rows w' = filter (\<lambda>x. \<not> has_key uid (''session-'' @ uuid) x) (rows w)
                     @ [\<lparr>user_id = uid, session_id = ''session-'' @ uuid,
                         last_message = ''New session started'', last_response = [],
                         last_updated = clock w, message_count = 0\<rparr>])
      \<and> (\<not> session_table m \<or> next_table_call_fails w \<longrightarrow> rows w' = rows w)"
  using create_session_effect[of m uid uuid w]
  by (auto simp: initial_row_def)

theorem create_session_contract_witness:
  "session_table ready \<and> \<not> next_table_call_fails empty_world
   \<and> (\<exists>w'. create_session ready ''u'' ''1b4e28ba-2fa1-41d2-883f-0016d3cca427'' empty_world
             = (Inr ''session-1b4e28ba-2fa1-41d2-883f-0016d3cca427'', w')
          \<and> rows w' = [\<lparr>user_id = ''u'',
                         session_id = ''session-1b4e28ba-2fa1-41d2-883f-0016d3cca427'',
                         last_message = ''New session started'', last_response = [],
                         last_updated = 1000, message_count = 0\<rparr>])
   \<and> next_table_call_fails (empty_world\<lparr>table_faults := [True]\<rparr>)
   \<and> (\<exists>w'. create_session ready ''u'' ''1b4e28ba-2fa1-41d2-883f-0016d3cca427''
               (empty_world\<lparr>table_faults := [True]\<rparr>)
             = (Inr ''session-1b4e28ba-2fa1-41d2-883f-0016d3cca427'', w')
          \<and> rows w' = [])"
proof -
  have a: "session_table ready \<and> \<not> next_table_call_fails empty_world"
    by (simp add: ready_def empty_world_def next_table_call_fails_def)
  have b: "next_table_call_fails (empty_world\<lparr>table_faults := [True]\<rparr>)"
    by (simp add: next_table_call_fails_def)
  have c: "rows empty_world = []" "clock empty_world = 1000"
    by (simp_all add: empty_world_def)
  show ?thesis
    using create_session_contract[of ready "''u''" "''1b4e28ba-2fa1-41d2-883f-0016d3cca427''"
        empty_world]
      create_session_contract[of ready "''u''" "''1b4e28ba-2fa1-41d2-883f-0016d3cca427''"
        "empty_world\<lparr>table_faults := [True]\<rparr>"]
      a b c
    by auto
qed

text \<open>
  C4 as stated fails: the initial row's preview of the last message is not empty.
\<close>

theorem create_session_counterexample:
  "map last_message
     (rows (snd (create_session ready ''u'' ''1b4e28ba-2fa1-41d2-883f-0016d3cca427'' empty_world)))
     = [''New session started'']"
  by code_simp

section \<open>Reading a session\<close>

lemma event_call_read:
  assumes "\<And>w. snd (act w) = w"
  shows "events (snd (event_call act w)) = events w"
    and "rows (snd (event_call act w)) = rows w"
    and "clock (snd (event_call act w)) = clock w"
    and "next_event (snd (event_call act w)) = next_event w"
    and "newest_first (snd (event_call act w)) = newest_first w"
    and "table_faults (snd (event_call act w)) = table_faults w"
  by (auto simp: event_call_def assms split: list.splits)

lemma list_events_read:
  "events (snd (list_events mem actor sid n w)) = events w"
  "rows (snd (list_events mem actor sid n w)) = rows w"
  "clock (snd (list_events mem actor sid n w)) = clock w"
  "next_event (snd (list_events mem actor sid n w)) = next_event w"
  "newest_first (snd (list_events mem actor sid n w)) = newest_first w"
  "table_faults (snd (list_events mem actor sid n w)) = table_faults w"
  unfolding list_events_def
  by (rule event_call_read; simp split: option.splits)+

lemma get_session_messages_snd:
  "snd (get_session_messages m uid sid w) = w
   \<or> snd (get_session_messages m uid sid w)
       = snd (list_events (memory_id m) (sanitize_actor_id uid) sid 100 w)"
  by (auto simp: get_session_messages_def Let_def io_return_def io_try_def io_bind_def
      client_def io_raise_def split: prod.splits sum.splits)

lemma get_session_messages_read:
  "events (snd (get_session_messages m uid sid w)) = events w"
  "rows (snd (get_session_messages m uid sid w)) = rows w"
  "clock (snd (get_session_messages m uid sid w)) = clock w"
  "next_event (snd (get_session_messages m uid sid w)) = next_event w"
  "newest_first (snd (get_session_messages m uid sid w)) = newest_first w"
  "table_faults (snd (get_session_messages m uid sid w)) = table_faults w"
  using get_session_messages_snd[of m uid sid w] list_events_read
  by metis+

lemma get_conversation_context_eq:
  assumes "get_session_messages m uid sid w = (Inr msgs, w')"
  shows "get_conversation_context m uid sid qry n w
           = (Inr (join [CHR 0x0A] (map render_turn (last_slice n msgs))), w')"
  using assms
  by (cases msgs) (simp_all add: get_conversation_context_def io_bind_def io_return_def
      last_slice_def)

lemma render_turn_body:
  "render_turn msg = (if role msg = ''user'' then ''Human: '' else ''Assistant: '')
                      @ take 200 (content msg)"
  "length (take 200 (content msg)) \<le> 200"
  by (simp_all add: render_turn_def)

text \<open>
  For a positive \<open>max_messages\<close>, the context is the newline-joined rendering of the last
  \<open>max_messages\<close> turns of the session, each as a role prefix and at most 200 characters
  of its text, and neither store is changed.
\<close>

lemma get_conversation_context_recent:
  assumes "0 < n"
  shows "\<exists>msgs w'. get_session_messages m uid sid w = (Inr msgs, w')
           \<and> get_conversation_context m uid sid qry n w
               = (Inr (join [CHR 0x0A] (map render_turn (drop (length msgs - nat n) msgs))), w')
           \<and> events w' = events w \<and> rows w' = rows w"
proof -
  obtain msgs w' where a: "get_session_messages m uid sid w = (Inr msgs, w')"
    using get_session_messages_returns by blast
  have "events w' = events w" "rows w' = rows w"
    using get_session_messages_read(1,2)[of m uid sid w] a by simp_all
  then show ?thesis
    using a get_conversation_context_eq[OF a, of qry n] assms
    by (simp add: last_slice_def)
qed

text \<open>
  C5. With \<open>max_messages = 0\<close> the slice \<open>messages[-0:]\<close> is the whole list: the context
  holds every turn of the session, not the most recent zero of them.
\<close>

theorem get_conversation_context_zero:
  "fst (get_conversation_context ready ''u'' ''session-1'' ''and now?'' 0 topics_world)
     = Inr (''Human: check my warranty status'' @ [CHR 0x0A]
            @ ''Assistant: It is valid until May.'' @ [CHR 0x0A]
            @ ''Human: mars weather'' @ [CHR 0x0A]
            @ ''Assistant: Cold and dusty.'')"
  by code_simp

section \<open>What each call leaves alone\<close>

lemma keepsD: "keeps view act \<Longrightarrow> view (snd (act w)) = view w"
  by (simp add: keeps_def)

lemma keeps_return: "keeps view (io_return x)"
  by (simp add: keeps_def io_return_def)

lemma keeps_raise: "keeps view (io_raise e)"
  by (simp add: keeps_def io_raise_def)

lemma keeps_bind:
  assumes "keeps view act" and "\<And>x. keeps view (f x)"
  shows "keeps view (io_bind act f)"
  unfolding keeps_def
proof
  fix w
  show "view (snd (io_bind act f w)) = view w"
  proof (cases rule: io_cases[of act w])
    case (Raise e w')
    then show ?thesis using keepsD[OF assms(1), of w] by (simp add: io_bind_def)
  next
    case (Return x w')
    then show ?thesis
      using keepsD[OF assms(1), of w] keepsD[OF assms(2), of x w'] by (simp add: io_bind_def)
  qed
qed

lemma keeps_try:
  assumes "keeps view act" and "\<And>e. keeps view (h e)"
  shows "keeps view (io_try act h)"
  unfolding keeps_def
proof
  fix w
  show "view (snd (io_try act h w)) = view w"
  proof (cases rule: io_cases[of act w])
    case (Raise e w')
    then show ?thesis
      using keepsD[OF assms(1), of w] keepsD[OF assms(2), of e w'] by (simp add: io_try_def)
  next
    case (Return x w')
    then show ?thesis using keepsD[OF assms(1), of w] by (simp add: io_try_def)
  qed
qed

lemma keeps_if: "keeps view a \<Longrightarrow> keeps view b \<Longrightarrow> keeps view (if c then a else b)"
  by simp

lemma keeps_now: "keeps view now"
  by (simp add: keeps_def now_def)

lemma keeps_client: "keeps view act \<Longrightarrow> keeps view (client m act)"
  by (simp add: client_def keeps_raise)

lemma keeps_table_call:
  assumes "keeps event_view act"
  shows "keeps event_view (table_call act)"
  unfolding keeps_def
proof
  fix w
  have "\<And>fs. event_view (snd (act (w\<lparr>table_faults := fs\<rparr>))) = event_view w"
    using keepsD[OF assms] by (simp add: event_view_def)
  then show "event_view (snd (table_call act w)) = event_view w"
    using keepsD[OF assms, of w]
    by (auto simp: table_call_def event_view_def split: list.splits)
qed

lemma keeps_event_call:
  assumes "keeps table_view act"
  shows "keeps table_view (event_call act)"
  unfolding keeps_def
proof
  fix w
  have "\<And>fs. table_view (snd (act (w\<lparr>event_faults := fs\<rparr>))) = table_view w"
    using keepsD[OF assms] by (simp add: table_view_def)
  then show "table_view (snd (event_call act w)) = table_view w"
    using keepsD[OF assms, of w]
    by (auto simp: event_call_def table_view_def split: list.splits)
qed

lemma table_calls_keep_events:
  "keeps event_view table_load"
  "keeps event_view (get_item uid sid)"
  "keeps event_view (put_item r)"
  "keeps event_view (query uid limit)"
  "keeps event_view (delete_item uid sid)"
  unfolding table_load_def get_item_def put_item_def query_def delete_item_def
  by (rule keeps_table_call; simp add: keeps_def event_view_def io_return_def)+

lemma event_calls_keep_table:
  "keeps table_view (create_event mem actor sid msgs ts)"
  "keeps table_view (list_events mem actor sid n)"
  "keeps table_view (delete_event mem sid eid actor)"
  unfolding create_event_def list_events_def delete_event_def
  by (rule keeps_event_call; simp add: keeps_def table_view_def split: option.splits)+

lemma update_session_metadata_keeps: "keeps event_view (update_session_metadata m uid sid a b)"
  unfolding update_session_metadata_def
  by (intro keeps_if keeps_bind keeps_try keeps_now keeps_return table_calls_keep_events)

lemma update_session_metadata_returns:
  "\<exists>w'. update_session_metadata m uid sid a b w = (Inr (), w')"
proof (cases "session_table m")
  case True
  then show ?thesis
    using io_try_const_returns[of _ "()" w] by (simp add: update_session_metadata_def)
next
  case False
  then show ?thesis by (simp add: update_session_metadata_def io_return_def)
qed

lemma get_session_messages_keeps: "keeps table_view (get_session_messages m uid sid)"
  unfolding get_session_messages_def Let_def
  by (intro keeps_if keeps_bind keeps_try keeps_client keeps_return event_calls_keep_table)

section \<open>Storing a turn and reading it back\<close>

lemma create_event_result:
  assumes "client m (create_event mem actor sid msgs ts) w = (r, w')"
  shows "newest_first w' = newest_first w \<and> clock w' = clock w
         \<and> ((\<exists>e. r = Inl e) \<and> events w' = events w \<and> next_event w' = next_event w
            \<or> r = Inr () \<and> events w' = events w @ [new_event (next_event w) actor sid msgs ts]
                \<and> next_event w' = Suc (next_event w))"
  using assms
  by (auto simp: client_def create_event_def event_call_def io_raise_def
      split: if_splits list.splits option.splits)

lemma create_event_healthy:
  assumes "memory_client m" and "mem = Some mid" and "event_faults w = []"
  shows "client m (create_event mem actor sid msgs ts) w
           = (Inr (), w\<lparr>events := events w @ [new_event (next_event w) actor sid msgs ts],
                        next_event := Suc (next_event w)\<rparr>)"
  using assms by (simp add: client_def create_event_def event_call_def)

lemma store_message_events:
  "\<exists>w'. store_message m uid sid msg response w = (Inr (), w')
      \<and> newest_first w' = newest_first w
      \<and> (events w' = events w
         \<or> events w' = events w
              @ [new_event (next_event w) (sanitize_actor_id uid) sid [(msg, ''USER'')] (clock w)]
         \<or> events w' = events w
              @ [new_event (next_event w) (sanitize_actor_id uid) sid [(msg, ''USER'')] (clock w),
                 new_event (Suc (next_event w)) (sanitize_actor_id uid) sid
                   [(response, ''ASSISTANT'')] (clock w + 100)])"
proof (cases "initialized m")
  case False
  then show ?thesis by (simp add: store_message_def io_return_def)
next
  case True
  let ?a = "sanitize_actor_id uid"
  let ?e1 = "new_event (next_event w) ?a sid [(msg, ''USER'')] (clock w)"
  let ?e2 = "new_event (Suc (next_event w)) ?a sid [(response, ''ASSISTANT'')] (clock w + 100)"
  obtain r1 w1 where c1:
    "client m (create_event (memory_id m) ?a sid [(msg, ''USER'')] (clock w)) w = (r1, w1)"
    by (cases "client m (create_event (memory_id m) ?a sid [(msg, ''USER'')] (clock w)) w")
  note f1 = create_event_result[OF c1]
  show ?thesis
  proof (cases r1)
    case (Inl e)
    then show ?thesis
      using True c1 f1
      by (simp add: store_message_def Let_def io_try_def io_bind_def now_def io_return_def)
  next
    case (Inr u)
    then have e1: "events w1 = events w @ [?e1]" "next_event w1 = Suc (next_event w)"
      "newest_first w1 = newest_first w" "clock w1 = clock w"
      using f1 by auto
    let ?w1s = "w1\<lparr>clock := clock w1 + 100\<rparr>"
    obtain r2 w2 where c2:
      "client m (create_event (memory_id m) ?a sid [(response, ''ASSISTANT'')] (clock w + 100)) ?w1s
         = (r2, w2)"
      by (cases "client m (create_event (memory_id m) ?a sid [(response, ''ASSISTANT'')]
                   (clock w + 100)) ?w1s")
    note f2 = create_event_result[OF c2]
    show ?thesis
    proof (cases r2)
      case (Inl e)
      then show ?thesis
        using True c1 c2 f2 e1 \<open>r1 = Inr u\<close>
        by (simp add: store_message_def Let_def io_try_def io_bind_def now_def io_return_def
            sleep_def)
    next
      case (Inr u2)
      then have e2: "events w2 = events w @ [?e1, ?e2]" "newest_first w2 = newest_first w"
        using f2 e1 by auto
      obtain w3 where u3: "update_session_metadata m uid sid msg response w2 = (Inr (), w3)"
        using update_session_metadata_returns by blast
      have "event_view w3 = event_view w2"
        using keepsD[OF update_session_metadata_keeps, of m uid sid msg response w2] u3 by simp
      then have e3: "events w3 = events w @ [?e1, ?e2]" "newest_first w3 = newest_first w"
        using e2 by (simp_all add: event_view_def)
      show ?thesis
        using True c1 c2 u3 e1 e3 \<open>r1 = Inr u\<close> \<open>r2 = Inr u2\<close>
        by (simp add: store_message_def Let_def io_try_def io_bind_def now_def io_return_def
            sleep_def)
    qed
  qed
qed

lemma store_message_healthy:
  assumes "initialized m" and "memory_client m" and "memory_id m = Some mid"
    and "event_faults w = []"
  shows "\<exists>w'. store_message m uid sid msg response w = (Inr (), w')
      \<and> newest_first w' = newest_first w \<and> event_faults w' = []
      \<and> events w' = events w
           @ [new_event (next_event w) (sanitize_actor_id uid) sid [(msg, ''USER'')] (clock w),
              new_event (Suc (next_event w)) (sanitize_actor_id uid) sid
                [(response, ''ASSISTANT'')] (clock w + 100)]"
proof -
  let ?a = "sanitize_actor_id uid"
  let ?e1 = "new_event (next_event w) ?a sid [(msg, ''USER'')] (clock w)"
  let ?e2 = "new_event (Suc (next_event w)) ?a sid [(response, ''ASSISTANT'')] (clock w + 100)"
  let ?w1 = "w\<lparr>events := events w @ [?e1], next_event := Suc (next_event w)\<rparr>"
  let ?w1s = "?w1\<lparr>clock := clock ?w1 + 100\<rparr>"
  let ?w2 = "?w1s\<lparr>events := events ?w1s @ [?e2], next_event := Suc (next_event ?w1s)\<rparr>"
  have c1: "client m (create_event (memory_id m) ?a sid [(msg, ''USER'')] (clock w)) w
              = (Inr (), ?w1)"
    using create_event_healthy[OF assms(2,3,4)] by simp
  have c2: "client m (create_event (memory_id m) ?a sid [(response, ''ASSISTANT'')]
                        (clock w + 100)) ?w1s = (Inr (), ?w2)"
    using create_event_healthy[OF assms(2,3), of ?w1s] assms(4) by simp
  obtain w3 where u3: "update_session_metadata m uid sid msg response ?w2 = (Inr (), w3)"
    using update_session_metadata_returns by blast
  have "event_view w3 = event_view ?w2"
    using keepsD[OF update_session_metadata_keeps, of m uid sid msg response ?w2] u3 by simp
  then have e3: "events w3 = events w @ [?e1, ?e2]" "newest_first w3 = newest_first w"
    "event_faults w3 = []"
    using assms(4) by (simp_all add: event_view_def)
  have "store_message m uid sid msg response w = (Inr (), w3)"
    using assms(1) c1 c2 u3
    by (simp add: store_message_def Let_def io_try_def io_bind_def now_def io_return_def
        sleep_def)
  then show ?thesis using e3 by simp
qed

lemma get_session_messages_cases:
  "fst (get_session_messages m uid sid w) = Inr []
   \<or> fst (get_session_messages m uid sid w)
       = Inr (sort_key timestamp (List.map_filter parse_event (listing w (sanitize_actor_id uid) sid 100)))"
  by (auto simp: get_session_messages_def Let_def io_return_def io_try_def io_bind_def
      client_def io_raise_def list_events_def event_call_def listing_def session_events_def
      split: list.splits option.splits)

lemma get_session_messages_healthy:
  assumes "initialized m" and "memory_client m" and "memory_id m = Some mid"
    and "\<not> next_event_call_fails w"
  shows "fst (get_session_messages m uid sid w)
       = Inr (sort_key timestamp (List.map_filter parse_event (listing w (sanitize_actor_id uid) sid 100)))"
  using assms
  by (auto simp: get_session_messages_def Let_def io_return_def io_try_def io_bind_def
      client_def io_raise_def list_events_def event_call_def listing_def session_events_def
      next_event_call_fails_def
      split: list.splits option.splits)

lemma parse_event_content: "parse_event ev = Some x \<Longrightarrow> content x \<noteq> []"
  by (auto simp: parse_event_def Let_def split: list.splits payload_item.splits if_splits)

lemma parse_new_event:
  "parse_event (new_event eid actor sid [(text, role_str)] ts)
     = (if text = [] then None
        else Some \<lparr>role = (if role_str = ''USER'' then ''user'' else ''assistant''),
                   content = text, timestamp = ts\<rparr>)"
  by (simp add: parse_event_def new_event_def)

lemma in_session_new_event: "in_session actor sid (new_event eid actor sid msgs ts)"
  by (simp add: in_session_def new_event_def)

lemma set_map_filter: "x \<in> set (List.map_filter f xs) \<longleftrightarrow> (\<exists>y\<in>set xs. f y = Some x)"
  by (induction xs) (auto simp: map_filter_simps split: option.splits)

lemma get_session_messages_content:
  "fst (get_session_messages m uid sid w) = Inr msgs \<Longrightarrow> \<forall>x\<in>set msgs. content x \<noteq> []"
  using get_session_messages_cases[of m uid sid w]
  by (auto simp: set_map_filter dest: parse_event_content)

lemma session_events_append:
  assumes "events w' = events w @ es" and "\<forall>e\<in>set es. in_session actor sid e"
  shows "session_events w' actor sid = session_events w actor sid @ es"
  using assms by (simp add: session_events_def)

text \<open>
  C2. With the manager initialized and the event store answering every call, storing a
  turn with non-empty texts in a session that had no events and then reading the
  session gives exactly two turns: the user's with the message, then the assistant's
  with the response. The assistant's event is stamped 100 ms after the user's (the clock
  moves on with \<open>sleep\<close>), so the order holds whichever way the store lists its events;
  failures of the metadata table do not matter.
\<close>

theorem store_message_then_get_session_messages:
  assumes "initialized m" and "memory_client m" and "memory_id m = Some mid"
    and "event_faults w = []"
    and "session_events w (sanitize_actor_id uid) sid = []"
    and "msg \<noteq> []" and "response \<noteq> []"
  shows "\<exists>w' w''. store_message m uid sid msg response w = (Inr (), w')
           \<and> get_session_messages m uid sid w'
               = (Inr [\<lparr>role = ''user'', content = msg, timestamp = clock w\<rparr>,
                       \<lparr>role = ''assistant'', content = response, timestamp = clock w + 100\<rparr>],
                  w'')"
proof -
  let ?a = "sanitize_actor_id uid"
  let ?e1 = "new_event (next_event w) ?a sid [(msg, ''USER'')] (clock w)"
  let ?e2 = "new_event (Suc (next_event w)) ?a sid [(response, ''ASSISTANT'')] (clock w + 100)"
  obtain w' where st: "store_message m uid sid msg response w = (Inr (), w')"
    and nf: "newest_first w' = newest_first w" and ef: "event_faults w' = []"
    and ev: "events w' = events w @ [?e1, ?e2]"
    using store_message_healthy[OF assms(1-4)] by blast
  have se: "session_events w' ?a sid = [?e1, ?e2]"
    using session_events_append[OF ev, of ?a sid] assms(5) by (simp add: in_session_new_event)
  have "\<not> next_event_call_fails w'"
    using ef by (simp add: next_event_call_fails_def)
  from get_session_messages_healthy[OF assms(1-3) this]
  have "fst (get_session_messages m uid sid w')
          = Inr (sort_key timestamp (List.map_filter parse_event (listing w' ?a sid 100)))" .
  also have "sort_key timestamp (List.map_filter parse_event (listing w' ?a sid 100))
          = [\<lparr>role = ''user'', content = msg, timestamp = clock w\<rparr>,
             \<lparr>role = ''assistant'', content = response, timestamp = clock w + 100\<rparr>]"
    using assms(6,7) by (simp add: listing_def se map_filter_simps parse_new_event)
  finally have "fst (get_session_messages m uid sid w')
          = Inr [\<lparr>role = ''user'', content = msg, timestamp = clock w\<rparr>,
                 \<lparr>role = ''assistant'', content = response, timestamp = clock w + 100\<rparr>]" .
  then have "\<exists>w''. get_session_messages m uid sid w'
               = (Inr [\<lparr>role = ''user'', content = msg, timestamp = clock w\<rparr>,
                       \<lparr>role = ''assistant'', content = response, timestamp = clock w + 100\<rparr>],
                  w'')"
    by (cases "get_session_messages m uid sid w'") simp
  with st show ?thesis by blast
qed

theorem store_message_then_get_session_messages_witness:
  "initialized ready \<and> memory_client ready \<and> memory_id ready = Some ''customerSupportMemory-1''
   \<and> event_faults (empty_world\<lparr>newest_first := True\<rparr>) = []
   \<and> session_events (empty_world\<lparr>newest_first := True\<rparr>)
        (sanitize_actor_id ''john.doe@example.com'') ''session-1'' = []
   \<and> (\<exists>w' w''. store_message ready ''john.doe@example.com'' ''session-1'' ''hello'' ''hi there''
                   (empty_world\<lparr>newest_first := True\<rparr>) = (Inr (), w')
          \<and> get_session_messages ready ''john.doe@example.com'' ''session-1'' w'
              = (Inr [\<lparr>role = ''user'', content = ''hello'', timestamp = 1000\<rparr>,
                      \<lparr>role = ''assistant'', content = ''hi there'', timestamp = 1100\<rparr>], w''))"
proof -
  let ?w = "empty_world\<lparr>newest_first := True\<rparr>"
  have a: "initialized ready" "memory_client ready"
    "memory_id ready = Some ''customerSupportMemory-1''"
    by (simp_all add: ready_def)
  have b: "event_faults ?w = []" "clock ?w = 1000"
    by (simp_all add: empty_world_def)
  have c: "session_events ?w (sanitize_actor_id ''john.doe@example.com'') ''session-1'' = []"
    by (simp add: session_events_def empty_world_def)
  have d: "''hello'' \<noteq> []" "''hi there'' \<noteq> []"
    by simp_all
  show ?thesis
    using store_message_then_get_session_messages[OF a b(1) c d] a b c by simp
qed

text \<open>
  C10. Every turn \<open>get_session_messages\<close> returns has a non-empty text: an event whose
  text is empty or missing is passed over, as is one without a conversational payload. So after \<open>store_message\<close> with an empty message
  or an empty response, in a session that had no events, reading the session gives fewer
  than two turns, whatever the manager's state and whichever store calls fail.
\<close>

theorem get_session_messages_omits_empty:
  "(\<forall>msgs. fst (get_session_messages m uid sid w) = Inr msgs
       \<longrightarrow> (\<forall>x\<in>set msgs. content x \<noteq> []))
   \<and> (conv_text c = None \<or> conv_text c = Some []
       \<longrightarrow> parse_event (ev\<lparr>payload := Conversational c # rest\<rparr>) = None)
   \<and> (payload ev = [] \<or> (\<exists>b. payload ev = Blob b # rest) \<longrightarrow> parse_event ev = None)
   \<and> (session_events w (sanitize_actor_id uid) sid = [] \<and> (msg = [] \<or> response = [])
       \<longrightarrow> (\<exists>w' msgs w''. store_message m uid sid msg response w = (Inr (), w')
              \<and> get_session_messages m uid sid w' = (Inr msgs, w'')
              \<and> length msgs < 2
              \<and> (\<forall>x\<in>set msgs. content x \<noteq> [])))"
proof -
  let ?a = "sanitize_actor_id uid"
  let ?e1 = "new_event (next_event w) ?a sid [(msg, ''USER'')] (clock w)"
  let ?e2 = "new_event (Suc (next_event w)) ?a sid [(response, ''ASSISTANT'')] (clock w + 100)"
  have first: "\<forall>msgs. fst (get_session_messages m uid sid w) = Inr msgs
       \<longrightarrow> (\<forall>x\<in>set msgs. content x \<noteq> [])"
    using get_session_messages_content by blast
  have second: "conv_text c = None \<or> conv_text c = Some []
       \<longrightarrow> parse_event (ev\<lparr>payload := Conversational c # rest\<rparr>) = None"
    by (auto simp: parse_event_def)
  have malformed: "payload ev = [] \<or> (\<exists>b. payload ev = Blob b # rest) \<longrightarrow> parse_event ev = None"
    by (auto simp: parse_event_def)
  have third: "\<exists>w' msgs w''. store_message m uid sid msg response w = (Inr (), w')
              \<and> get_session_messages m uid sid w' = (Inr msgs, w'')
              \<and> length msgs < 2
              \<and> (\<forall>x\<in>set msgs. content x \<noteq> [])"
    if empty: "session_events w ?a sid = []" and blank: "msg = [] \<or> response = []"
  proof -
    obtain w' where st: "store_message m uid sid msg response w = (Inr (), w')"
      and nf: "newest_first w' = newest_first w"
      and ev: "events w' = events w @ [] \<or> events w' = events w @ [?e1]
               \<or> events w' = events w @ [?e1, ?e2]"
      using store_message_events[of m uid sid msg response w] by auto
    have se: "session_events w' ?a sid = [] \<or> session_events w' ?a sid = [?e1]
              \<or> session_events w' ?a sid = [?e1, ?e2]"
      using ev empty
        session_events_append[of w' w "[]" ?a sid]
        session_events_append[of w' w "[?e1]" ?a sid]
        session_events_append[of w' w "[?e1, ?e2]" ?a sid]
      by (auto simp: in_session_new_event)
    have short: "length (List.map_filter parse_event (listing w' ?a sid 100)) < 2"
      using se blank by (auto simp: listing_def map_filter_simps parse_new_event)
    obtain msgs w'' where g: "get_session_messages m uid sid w' = (Inr msgs, w'')"
      using get_session_messages_returns by blast
    have "msgs = [] \<or> msgs = sort_key timestamp (List.map_filter parse_event (listing w' ?a sid 100))"
      using get_session_messages_cases[of m uid sid w'] g by simp
    then have "length msgs < 2"
      using short by auto
    moreover have "\<forall>x\<in>set msgs. content x \<noteq> []"
      using get_session_messages_content[of m uid sid w' msgs] g by simp
    ultimately show ?thesis
      using st g by blast
  qed
  from first second malformed third show ?thesis by blast
qed

lemma blank_message_example:
  "fst (get_session_messages ready ''u'' ''session-1''
          (snd (store_message ready ''u'' ''session-1'' [] ''hi there'' empty_world)))
     = Inr [\<lparr>role = ''assistant'', content = ''hi there'', timestamp = 1100\<rparr>]"
  by code_simp

theorem get_session_messages_omits_empty_witness:
  "session_events empty_world (sanitize_actor_id ''u'') ''session-1'' = []
   \<and> (\<exists>w' msgs w''. store_message ready ''u'' ''session-1'' [] ''hi there'' empty_world = (Inr (), w')
          \<and> get_session_messages ready ''u'' ''session-1'' w' = (Inr msgs, w'')
          \<and> length msgs < 2)
   \<and> fst (get_session_messages ready ''u'' ''session-1''
            (snd (store_message ready ''u'' ''session-1'' [] ''hi there'' empty_world)))
       = Inr [\<lparr>role = ''assistant'', content = ''hi there'', timestamp = 1100\<rparr>]
   \<and> conv_text \<lparr>conv_role = Some ''USER'', conv_text = Some []\<rparr> = Some []
   \<and> parse_event (turn_event 0 ''u'' ''session-1'' ''USER'' ''hello''
        \<lparr>payload := [Conversational \<lparr>conv_role = Some ''USER'', conv_text = Some []\<rparr>]\<rparr>) = None
   \<and> payload (turn_event 0 ''u'' ''session-1'' ''USER'' ''hello''\<lparr>payload := []\<rparr>) = []
   \<and> parse_event (turn_event 0 ''u'' ''session-1'' ''USER'' ''hello''\<lparr>payload := []\<rparr>) = None"
proof -
  have a: "session_events empty_world (sanitize_actor_id ''u'') ''session-1'' = []"
    by (simp add: session_events_def empty_world_def)
  have b: "conv_text \<lparr>conv_role = Some ''USER'', conv_text = Some []\<rparr> = Some []"
    by simp
  note inst = get_session_messages_omits_empty[where m = ready and uid = "''u''"
      and sid = "''session-1''" and w = empty_world and msg = "[]" and response = "''hi there''"
      and c = "\<lparr>conv_role = Some ''USER'', conv_text = Some []\<rparr>"
      and ev = "turn_event 0 ''u'' ''session-1'' ''USER'' ''hello''" and rest = "[]"]
  have c: "\<exists>w' msgs w''. store_message ready ''u'' ''session-1'' [] ''hi there'' empty_world = (Inr (), w')
          \<and> get_session_messages ready ''u'' ''session-1'' w' = (Inr msgs, w'')
          \<and> length msgs < 2"
    using inst a by blast
  have d: "parse_event (turn_event 0 ''u'' ''session-1'' ''USER'' ''hello''
        \<lparr>payload := [Conversational \<lparr>conv_role = Some ''USER'', conv_text = Some []\<rparr>]\<rparr>) = None"
    using inst b by blast
  have e: "payload (turn_event 0 ''u'' ''session-1'' ''USER'' ''hello''\<lparr>payload := []\<rparr>) = []"
    by simp
  have f: "parse_event (turn_event 0 ''u'' ''session-1'' ''USER'' ''hello''\<lparr>payload := []\<rparr>) = None"
    using get_session_messages_omits_empty[where
        ev = "turn_event 0 ''u'' ''session-1'' ''USER'' ''hello''\<lparr>payload := []\<rparr>"] e
    by blast
  show ?thesis
    using a b c d e f blank_message_example by blast
qed

section \<open>Deleting a session\<close>




lemma delete_item_try_events:
  "\<exists>w'. (if session_table m then io_try (delete_item uid sid) (\<lambda>_. io_return ())
          else io_return ()) w = (Inr (), w') \<and> events w' = events w"
proof -
  have k: "keeps event_view (if session_table m then io_try (delete_item uid sid) (\<lambda>_. io_return ())
          else io_return ())"
    by (intro keeps_if keeps_try keeps_return table_calls_keep_events)
  have "\<exists>u w'. (if session_table m then io_try (delete_item uid sid) (\<lambda>_. io_return ())
          else io_return ()) w = (Inr u, w')"
    using io_try_const_returns[of "delete_item uid sid" "()" w] by (simp add: io_return_def)
  then show ?thesis
    using keepsD[OF k, of w] by (auto simp: event_view_def)
qed


lemma delete_session_no_events:
  assumes "session_events w (sanitize_actor_id uid) sid = []"
  shows "fst (delete_session m uid sid w) = Inr False"
proof -
  let ?a = "sanitize_actor_id uid"
  obtain r w1 where l: "client m (list_events (memory_id m) ?a sid 100) w = (r, w1)"
    by (cases "client m (list_events (memory_id m) ?a sid 100) w")
  show ?thesis
  proof (cases r)
    case (Inl e)
    then show ?thesis
      using l by (simp add: delete_session_def Let_def io_try_def io_bind_def io_return_def)
  next
    case (Inr evs)
    then have "evs = []"
      using l assms
      by (auto simp: client_def io_raise_def list_events_def event_call_def listing_def
          session_events_def split: if_splits list.splits option.splits)
    obtain w3 where t: "(if session_table m then io_try (delete_item uid sid) (\<lambda>_. io_return ())
          else io_return ()) w1 = (Inr (), w3)"
      using delete_item_try_events[of m uid sid w1] by blast
    show ?thesis
      using l Inr \<open>evs = []\<close> t
      by (simp add: delete_session_def Let_def io_try_def io_bind_def io_return_def)
  qed
qed

lemma list_events_healthy:
  assumes "memory_client m" and "memory_id m = Some mid" and "event_faults w = []"
  shows "client m (list_events (memory_id m) actor sid n) w = (Inr (listing w actor sid n), w)"
  using assms by (simp add: client_def list_events_def event_call_def)

lemma delete_event_healthy:
  assumes "memory_client m" and "memory_id m = Some mid" and "event_faults w = []"
    and "distinct (map eventId (events w))"
    and "ev \<in> set (events w)" and "in_session actor sid ev"
  shows "client m (delete_event (memory_id m) sid (eventId ev) actor) w
           = (Inr (), w\<lparr>events := filter (\<lambda>e. e \<noteq> ev) (events w)\<rparr>)"
proof -
  have inj: "inj_on eventId (set (events w))"
    using assms(4) by (simp add: distinct_map)
  have same: "\<And>e. e \<in> set (events w) \<Longrightarrow> is_event sid (eventId ev) actor e \<longleftrightarrow> e = ev"
    using inj assms(5,6) by (auto simp: is_event_def dest: inj_onD)
  have f: "filter (\<lambda>e. \<not> is_event sid (eventId ev) actor e) (events w)
             = filter (\<lambda>e. e \<noteq> ev) (events w)"
    by (rule filter_cong) (simp_all add: same)
  have ex: "list_ex (is_event sid (eventId ev) actor) (events w)"
    using assms(5,6) by (auto simp: list_ex_iff is_event_def)
  show ?thesis
    using assms(1-3) ex f by (simp add: client_def delete_event_def event_call_def)
qed

lemma delete_events_healthy:
  assumes "memory_client m" and "memory_id m = Some mid" and "event_faults w = []"
    and "distinct (map eventId (events w))"
    and "distinct evs" and "set evs \<subseteq> set (session_events w actor sid)"
  shows "delete_events m actor sid evs w
           = (Inr (length evs), w\<lparr>events := filter (\<lambda>e. e \<notin> set evs) (events w)\<rparr>)"
  using assms(3-6)
proof (induction evs arbitrary: w)
  case Nil
  then show ?case by (simp add: io_return_def)
next
  case (Cons ev evs)
  let ?w1 = "w\<lparr>events := filter (\<lambda>e. e \<noteq> ev) (events w)\<rparr>"
  have mem: "ev \<in> set (events w)" "in_session actor sid ev"
    using Cons.prems(4) by (auto simp: session_events_def)
  have d: "client m (delete_event (memory_id m) sid (eventId ev) actor) w = (Inr (), ?w1)"
    using delete_event_healthy[OF assms(1,2) Cons.prems(1,2) mem] .
  have p1: "event_faults ?w1 = []"
    using Cons.prems(1) by simp
  have p2: "distinct (map eventId (events ?w1))"
    using Cons.prems(2) by (simp add: distinct_map_filter)
  have p3: "distinct evs"
    using Cons.prems(3) by simp
  have p4: "set evs \<subseteq> set (session_events ?w1 actor sid)"
    using Cons.prems(3,4) by (auto simp: session_events_def)
  have rest: "delete_events m actor sid evs ?w1
           = (Inr (length evs), ?w1\<lparr>events := filter (\<lambda>e. e \<notin> set evs) (events ?w1)\<rparr>)"
    using Cons.IH[OF p1 p2 p3 p4] .
  have fl: "filter (\<lambda>e. e \<notin> set evs) (filter (\<lambda>e. e \<noteq> ev) (events w))
              = filter (\<lambda>e. e \<notin> set (ev # evs)) (events w)"
    by (induction "events w") (auto intro: filter_cong)
  show ?case
    using d rest fl by (simp add: io_bind_def io_try_def io_return_def)
qed

lemma listing_distinct:
  assumes "distinct (map eventId (events w))"
  shows "distinct (listing w actor sid n)"
    and "set (listing w actor sid n) \<subseteq> set (session_events w actor sid)"
proof -
  have d: "distinct (session_events w actor sid)"
    using assms by (simp add: session_events_def distinct_map)
  show "distinct (listing w actor sid n)"
    using d by (simp add: listing_def)
  show "set (listing w actor sid n) \<subseteq> set (session_events w actor sid)"
    using set_take_subset[of n "rev (session_events w actor sid)"]
      set_take_subset[of n "session_events w actor sid"]
    by (auto simp: listing_def)
qed

text \<open>
  With a healthy event store, \<open>delete_session\<close> deletes the events \<open>list_events\<close> answered,
  at most 100 of them, and no others.
\<close>

lemma delete_session_healthy:
  assumes "memory_client m" and "memory_id m = Some mid" and "event_faults w = []"
    and "distinct (map eventId (events w))"
  shows "\<exists>w'. delete_session m uid sid w
                = (Inr (listing w (sanitize_actor_id uid) sid 100 \<noteq> []), w')
           \<and> events w'
               = filter (\<lambda>e. e \<notin> set (listing w (sanitize_actor_id uid) sid 100)) (events w)
           \<and> event_faults w' = [] \<and> newest_first w' = newest_first w"
proof -
  let ?a = "sanitize_actor_id uid"
  let ?evs = "listing w ?a sid 100"
  let ?w2 = "w\<lparr>events := filter (\<lambda>e. e \<notin> set ?evs) (events w)\<rparr>"
  have l: "client m (list_events (memory_id m) ?a sid 100) w = (Inr ?evs, w)"
    using list_events_healthy[OF assms(1-3)] .
  have d: "delete_events m ?a sid ?evs w = (Inr (length ?evs), ?w2)"
    using delete_events_healthy[OF assms listing_distinct[OF assms(4)]] .
  let ?t = "if session_table m then io_try (delete_item uid sid) (\<lambda>_. io_return ())
            else io_return ()"
  have k: "keeps event_view ?t"
    by (intro keeps_if keeps_try keeps_return table_calls_keep_events)
  obtain w3 where t: "?t ?w2 = (Inr (), w3)"
    using delete_item_try_events[of m uid sid ?w2] by blast
  have "event_view w3 = event_view ?w2"
    using keepsD[OF k, of ?w2] t by simp
  then have e3: "events w3 = filter (\<lambda>e. e \<notin> set ?evs) (events w)" "event_faults w3 = []"
    "newest_first w3 = newest_first w"
    using assms(3) by (simp_all add: event_view_def)
  have "delete_session m uid sid w = (Inr (0 < length ?evs), w3)"
    using l d t by (simp add: delete_session_def Let_def io_try_def io_bind_def io_return_def)
  then show ?thesis
    using e3 by simp
qed

lemma long_turn_fields:
  "eventId (long_turn i) = i" "in_session ''u'' ''session-1'' (long_turn i)"
  by (simp_all add: long_turn_def turn_event_def in_session_def)

lemma long_turn_eq: "long_turn i = long_turn j \<longleftrightarrow> i = j"
  using long_turn_fields(1) by metis

lemma long_session_listing:
  "listing long_session_world ''u'' ''session-1'' 100 = map long_turn [0..<100]"
proof -
  have "session_events long_session_world ''u'' ''session-1'' = map long_turn [0..<102]"
    by (simp add: session_events_def long_session_world_def long_turn_fields filter_map o_def)
  then show ?thesis
    by (simp add: listing_def long_session_world_def empty_world_def take_map)
qed

lemma long_session_left:
  "filter (\<lambda>e. e \<notin> set (map long_turn [0..<100])) (map long_turn [0..<102])
     = [long_turn 100, long_turn 101]"
proof -
  have "[0..<100 + 2] = [0..<100] @ [100..<100 + 2]"
    by (rule upt_add_eq_append) simp
  moreover have "[100..<102] = [100, 101::nat]"
    by code_simp
  ultimately have split: "[0..<102] = [0..<100] @ [100, 101]"
    by simp
  have "\<And>i. (long_turn i \<notin> long_turn ` {0..<100}) = (\<not> i < 100)"
    by (auto simp: long_turn_eq)
  then have "filter (\<lambda>e. e \<notin> set (map long_turn [0..<100])) (map long_turn [0..<102])
         = map long_turn (filter (\<lambda>i. \<not> i < 100) [0..<102])"
    by (simp add: filter_map o_def)
  also have "filter (\<lambda>i. \<not> i < 100) [0..<102] = [100, 101]"
    unfolding split by simp
  finally show ?thesis by simp
qed

text \<open>
  C3. \<open>delete_session\<close> lists the session with \<open>max_results=100\<close> and deletes what it is
  given. On a session of 102 events, with every call succeeding, it answers true and
  leaves the last two events behind: reading the session afterwards still gives a turn.
\<close>

theorem delete_session_leaves_events:
  "fst (delete_session ready ''u'' ''session-1'' long_session_world) = Inr True
   \<and> fst (get_session_messages ready ''u'' ''session-1''
            (snd (delete_session ready ''u'' ''session-1'' long_session_world)))
       = Inr [\<lparr>role = ''user'', content = ''question'', timestamp = 100\<rparr>,
              \<lparr>role = ''assistant'', content = ''answer'', timestamp = 101\<rparr>]"
proof -
  let ?w = "long_session_world"
  have sa: "sanitize_actor_id ''u'' = ''u''"
    by code_simp
  have r: "initialized ready" "memory_client ready"
    "memory_id ready = Some ''customerSupportMemory-1''"
    by (simp_all add: ready_def)
  have h: "event_faults ?w = []" "newest_first ?w = False"
    by (simp_all add: long_session_world_def empty_world_def)
  have "map eventId (events ?w) = [0..<102]"
    by (simp add: long_session_world_def o_def long_turn_fields map_idI)
  then have d: "distinct (map eventId (events ?w))"
    by simp
  obtain w' where del: "delete_session ready ''u'' ''session-1'' ?w
                = (Inr (listing ?w ''u'' ''session-1'' 100 \<noteq> []), w')"
    and ev: "events w' = filter (\<lambda>e. e \<notin> set (listing ?w ''u'' ''session-1'' 100)) (events ?w)"
    and ef: "event_faults w' = []" and nf: "newest_first w' = newest_first ?w"
    using delete_session_healthy[OF r(2,3) h(1) d, of "''u''" "''session-1''"] sa by auto
  have ans: "listing ?w ''u'' ''session-1'' 100 \<noteq> []"
    by (simp add: long_session_listing)
  have all: "events ?w = map long_turn [0..<102]"
    by (simp add: long_session_world_def)
  have left: "events w' = [long_turn 100, long_turn 101]"
    using ev unfolding long_session_listing all long_session_left .
  have "\<not> next_event_call_fails w'"
    using ef by (simp add: next_event_call_fails_def)
  from get_session_messages_healthy[OF r this, of "''u''" "''session-1''"]
  have "fst (get_session_messages ready ''u'' ''session-1'' w')
          = Inr (sort_key timestamp (List.map_filter parse_event (listing w' ''u'' ''session-1'' 100)))"
    by (simp add: sa)
  also have "listing w' ''u'' ''session-1'' 100 = [long_turn 100, long_turn 101]"
    using nf h(2) by (simp add: listing_def session_events_def left long_turn_fields)
  also have "sort_key timestamp (List.map_filter parse_event [long_turn 100, long_turn 101])
          = [\<lparr>role = ''user'', content = ''question'', timestamp = 100\<rparr>,
             \<lparr>role = ''assistant'', content = ''answer'', timestamp = 101\<rparr>]"
    by (simp add: map_filter_simps parse_event_def long_turn_def turn_event_def)
  finally show ?thesis
    using del ans by simp
qed

text \<open>
  When the session has at most 100 events, the store is healthy and event identifiers
  are unique, the deletion is complete: the answer is true exactly when the session had
  an event, and the session reads as empty afterwards.
\<close>

lemma delete_session_complete:
  assumes "memory_client m" and "memory_id m = Some mid" and "event_faults w = []"
    and "distinct (map eventId (events w))"
    and "length (session_events w (sanitize_actor_id uid) sid) \<le> 100"
  shows "\<exists>w'. delete_session m uid sid w
                = (Inr (session_events w (sanitize_actor_id uid) sid \<noteq> []), w')
           \<and> session_events w' (sanitize_actor_id uid) sid = []
           \<and> fst (get_session_messages m uid sid w') = Inr []"
proof -
  let ?a = "sanitize_actor_id uid"
  have set_l: "set (listing w ?a sid 100) = set (session_events w ?a sid)"
    using assms(5) by (simp add: listing_def)
  have ne: "listing w ?a sid 100 \<noteq> [] \<longleftrightarrow> session_events w ?a sid \<noteq> []"
    using set_l by (metis set_empty)
  obtain w' where del: "delete_session m uid sid w = (Inr (listing w ?a sid 100 \<noteq> []), w')"
    and ev: "events w' = filter (\<lambda>e. e \<notin> set (listing w ?a sid 100)) (events w)"
    using delete_session_healthy[OF assms(1-4), of uid sid] by blast
  have gone: "session_events w' ?a sid = []"
    unfolding session_events_def ev set_l by (auto simp: session_events_def filter_empty_conv)
  then have "listing w' ?a sid 100 = []"
    by (simp add: listing_def)
  then have "fst (get_session_messages m uid sid w') = Inr []"
    using get_session_messages_cases[of m uid sid w'] by (auto simp: map_filter_simps)
  then show ?thesis
    using del ne gone by auto
qed

section \<open>Listing a user's sessions\<close>




text \<open>
  C9. The table's sort key is the session identifier, \<open>session-\<close> and a random UUID, and
  the query asks for descending sort-key order. A session created a minute after
  another, with the smaller identifier, is listed after it: the older one comes first.
\<close>

theorem get_user_sessions_oldest_first:
  "fst (get_user_sessions ready ''u'' 10
          (snd (create_session ready ''u'' ''0a1f6c2e-7b3d-4e5f-8a9b-1c2d3e4f5a6b''
             (snd (sleep 60000
                (snd (create_session ready ''u'' ''f47ac10b-58cc-4372-a567-0e02b2c3d479''
                        empty_world)))))))
     = Inr [initial_row ''u'' ''session-f47ac10b-58cc-4372-a567-0e02b2c3d479'' 1000,
            initial_row ''u'' ''session-0a1f6c2e-7b3d-4e5f-8a9b-1c2d3e4f5a6b'' 61000]"
proof -
  let ?old = "initial_row ''u'' ''session-f47ac10b-58cc-4372-a567-0e02b2c3d479'' 1000"
  let ?new = "initial_row ''u'' ''session-0a1f6c2e-7b3d-4e5f-8a9b-1c2d3e4f5a6b'' 61000"
  have w1: "snd (create_session ready ''u'' ''f47ac10b-58cc-4372-a567-0e02b2c3d479'' empty_world)
              = empty_world\<lparr>rows := [?old]\<rparr>"
    by (simp add: create_session_def Let_def ready_def io_bind_def io_try_def now_def
        put_item_def table_call_def empty_world_def io_return_def)
  have w2: "snd (sleep 60000 (empty_world\<lparr>rows := [?old]\<rparr>))
              = empty_world\<lparr>rows := [?old], clock := 61000\<rparr>"
    by (simp add: sleep_def empty_world_def)
  have w3: "snd (create_session ready ''u'' ''0a1f6c2e-7b3d-4e5f-8a9b-1c2d3e4f5a6b''
                   (empty_world\<lparr>rows := [?old], clock := 61000\<rparr>))
              = empty_world\<lparr>rows := [?old, ?new], clock := 61000\<rparr>"
    by (simp add: create_session_def Let_def ready_def io_bind_def io_try_def now_def
        put_item_def table_call_def empty_world_def io_return_def has_key_def initial_row_def)
  have le: "session_id ?new \<le> session_id ?old" "\<not> session_id ?old \<le> session_id ?new"
    by (simp_all add: initial_row_def less_char_def less_eq_char_def)
  have srt: "sort_key session_id [?old, ?new] = [?new, ?old]"
    using le by simp
  have "fst (get_user_sessions ready ''u'' 10 (empty_world\<lparr>rows := [?old, ?new], clock := 61000\<rparr>))
          = Inr (take 10 (rev (sort_key session_id [?old, ?new])))"
    by (simp add: get_user_sessions_def ready_def io_bind_def io_try_def table_load_def
        query_def table_call_def empty_world_def io_return_def initial_row_def)
  then show ?thesis
    unfolding w1 w2 w3 srt by simp
qed

section \<open>Fallbacks and the degraded state\<close>









section \<open>The history the preferences are read from\<close>






lemma get_user_sessions_run:
  assumes "session_table m" and "table_faults w = []" and "1 \<le> limit"
  shows "get_user_sessions m uid limit w
           = (Inr (take (nat limit)
                     (rev (sort_key session_id (filter (\<lambda>r. user_id r = uid) (rows w))))), w)"
  using assms
  by (simp add: get_user_sessions_def io_try_def io_bind_def table_load_def query_def
      table_call_def io_return_def)










section \<open>Where failures are absorbed\<close>
















end
